theory Spec2Isabelle
  imports Main "HOL-Library.Word"
begin

unbundle bit_operations_syntax

section \<open>The bit-flag demonstration (Go)\<close>

text \<open>
  The Go type \<open>uint\<close> is an unsigned machine integer of 32 or 64 bits, depending on the
  platform; it is modelled here as a 64-bit word. \<open>Flags\<close> is a defined type whose
  underlying type is \<open>uint\<close>. The constants are \<open>1 << iota\<close> for
  \<open>iota = 0, 1, 2, 3, 4\<close>.
\<close>

type_synonym uint = "64 word"
type_synonym Flags = uint

definition FlagUp :: Flags where
  "FlagUp = push_bit 0 1"

definition FlagBroadcast :: Flags where
  "FlagBroadcast = push_bit 1 1"

definition FlagLoopback :: Flags where
  "FlagLoopback = push_bit 2 1"

definition FlagPointToPoint :: Flags where
  "FlagPointToPoint = push_bit 3 1"

definition FlagMulticast :: Flags where
  "FlagMulticast = push_bit 4 1"

text \<open>
  \<open>TurnDown\<close> and \<open>SetBroadcast\<close> update the value behind a pointer; the model
  returns the updated value. Go's \<open>x &^ y\<close> is \<open>x AND NOT y\<close>.
\<close>

definition IsUp :: "Flags \<Rightarrow> bool" where
  "IsUp v = (v AND FlagUp = FlagUp)"

definition TurnDown :: "Flags \<Rightarrow> Flags" where
  "TurnDown v = v AND NOT FlagUp"

definition SetBroadcast :: "Flags \<Rightarrow> Flags" where
  "SetBroadcast v = v OR FlagBroadcast"

definition IsCast :: "Flags \<Rightarrow> bool" where
  "IsCast v = (v AND (FlagBroadcast OR FlagMulticast) \<noteq> 0)"

subsection \<open>Formatted output\<close>

text \<open>
  The verbs of \<open>fmt.Printf\<close> that the program uses: \<open>%d\<close> (decimal), \<open>%b\<close>
  (binary, no leading zeros) and \<open>%t\<close> (\<open>true\<close> or \<open>false\<close>). They are also used
  for the decimal numbers in the template strings of the tutorial script below.
\<close>

definition digit_char :: "nat \<Rightarrow> char" where
  "digit_char d = ''0123456789'' ! d"

fun fmt_d_nat :: "nat \<Rightarrow> string" where
  "fmt_d_nat n =
     (if n < 10 then [digit_char n] else fmt_d_nat (n div 10) @ [digit_char (n mod 10)])"

fun fmt_b_nat :: "nat \<Rightarrow> string" where
  "fmt_b_nat n =
     (if n < 2 then [digit_char n] else fmt_b_nat (n div 2) @ [digit_char (n mod 2)])"

declare fmt_d_nat.simps [simp del] fmt_b_nat.simps [simp del]

definition fmt_d :: "uint \<Rightarrow> string" where
  "fmt_d x = fmt_d_nat (unat x)"

definition fmt_b :: "uint \<Rightarrow> string" where
  "fmt_b x = fmt_b_nat (unat x)"

definition fmt_t :: "bool \<Rightarrow> string" where
  "fmt_t x = (if x then ''true'' else ''false'')"

subsection \<open>The procedure \<open>main\<close>\<close>

text \<open>
  The state of \<open>main\<close>: its variables \<open>a\<close>, \<open>b\<close>, \<open>c\<close> and \<open>v\<close>, and the lines
  written to standard output so far (every \<open>Printf\<close> of the program writes one line,
  ending in a newline).
\<close>

record main_state =
  main_a :: uint
  main_b :: uint
  main_c :: uint
  main_v :: Flags
  main_out :: "string list"

definition Printf :: "string \<Rightarrow> main_state \<Rightarrow> main_state" where
  "Printf line s = s\<lparr>main_out := main_out s @ [line]\<rparr>"

definition main_init :: main_state where
  "main_init =
     \<lparr>main_a = 1, main_b = 10, main_c = 100, main_v = FlagMulticast OR FlagUp, main_out = []\<rparr>"

text \<open>Lines 35 to 43: the calls of the flag helpers.\<close>

definition main_flags :: "main_state \<Rightarrow> main_state" where
  "main_flags s0 =
     (let s1 = Printf (fmt_b (main_v s0) @ '' '' @ fmt_d (main_v s0)) s0;
          s2 = Printf (fmt_b (main_v s1) @ '' '' @ fmt_t (IsUp (main_v s1))) s1;
          s3 = s2\<lparr>main_v := TurnDown (main_v s2)\<rparr>;
          s4 = Printf (fmt_b (main_v s3) @ '' '' @ fmt_t (IsUp (main_v s3))) s3;
          s5 = s4\<lparr>main_v := SetBroadcast (main_v s4)\<rparr>;
          s6 = Printf (fmt_b (main_v s5) @ '' '' @ fmt_t (IsUp (main_v s5))) s5
      in Printf (fmt_b (main_v s6) @ '' '' @ fmt_t (IsCast (main_v s6))) s6)"

text \<open>Lines 45 to 58: one assignment to \<open>c\<close> and one \<open>Printf\<close> each.\<close>

definition main_line1 :: "main_state \<Rightarrow> main_state" where
  "main_line1 s =
     (let s' = s\<lparr>main_c := main_a s AND main_b s\<rparr>
      in Printf (''Line 1 - Value of c is '' @ fmt_d (main_c s')) s')"

definition main_line2 :: "main_state \<Rightarrow> main_state" where
  "main_line2 s =
     (let s' = s\<lparr>main_c := main_a s OR main_b s\<rparr>
      in Printf (''Line 2 - Value of c is '' @ fmt_d (main_c s')) s')"

definition main_line3 :: "main_state \<Rightarrow> main_state" where
  "main_line3 s =
     (let s' = s\<lparr>main_c := main_a s XOR main_b s\<rparr>
      in Printf (''Line 3 - Value of c is '' @ fmt_d (main_c s')) s')"

definition main_line4 :: "main_state \<Rightarrow> main_state" where
  "main_line4 s =
     (let s' = s\<lparr>main_c := push_bit 2 (main_a s)\<rparr>
      in Printf (''Line 4 - Value of c is '' @ fmt_d (main_c s')) s')"

definition main_line5 :: "main_state \<Rightarrow> main_state" where
  "main_line5 s =
     (let s' = s\<lparr>main_c := drop_bit 2 (main_a s)\<rparr>
      in Printf (''Line 5 - Value of c is '' @ fmt_d (main_c s')) s')"

definition main :: main_state where
  "main = main_line5 (main_line4 (main_line3 (main_line2 (main_line1 (main_flags main_init)))))"

section \<open>The tutorial script (JavaScript)\<close>

subsection \<open>Values\<close>

text \<open>
  The values that the script writes down (its literals, and the schema): \<open>undefined\<close>,
  \<open>null\<close>, booleans, numbers (only integers occur in what is modelled), strings, the
  constructor functions \<open>String\<close>, \<open>Number\<close>, \<open>Object\<close> and \<open>Date\<close> that the schema
  names as field types, arrays (their elements, and the named properties an array object
  may carry besides) and objects (their properties, in order).
\<close>

datatype ctor = CString | CNumber | CObject | CDate

datatype jsval =
    JUndefined
  | JNull
  | JBool bool
  | JNum int
  | JStr string
  | JCtor ctor
  | JArr "jsval list" "(string \<times> jsval) list"
  | JObj "(string \<times> jsval) list"

text \<open>
  The values that the library hands to the script: data (\<open>undefined\<close>, \<open>null\<close>,
  booleans, numbers, strings, arrays with their elements and named properties, objects
  with their properties), and the models of the library, which are objects with the
  methods of a model (\<open>create\<close>, \<open>get\<close>, \<open>find\<close>, \<open>update\<close>) besides their data
  properties. Data holds no functions.
\<close>

datatype libval =
    LUndefined
  | LNull
  | LBool bool
  | LNum int
  | LStr string
  | LArr "libval list" "(string \<times> libval) list"
  | LObj "(string \<times> libval) list"
  | LModel "(string \<times> libval) list"

text \<open>
  What a script can throw: the \<open>TypeError\<close> of the language, or any value that the
  library throws.
\<close>

datatype error = TypeError | Thrown libval

text \<open>
  Reading the property \<open>k\<close> of a value, for the property names that the script reads
  (none of them is inherited from a prototype, except \<open>name\<close> of a function): reading a
  property of \<open>undefined\<close> or \<open>null\<close> throws a \<open>TypeError\<close>, a missing property reads
  as \<open>undefined\<close>.
\<close>

fun ctor_name :: "ctor \<Rightarrow> string" where
  "ctor_name CString = ''String''"
| "ctor_name CNumber = ''Number''"
| "ctor_name CObject = ''Object''"
| "ctor_name CDate = ''Date''"

fun read_prop :: "jsval \<Rightarrow> string \<Rightarrow> error + jsval" where
  "read_prop JUndefined k = Inl TypeError"
| "read_prop JNull k = Inl TypeError"
| "read_prop (JObj kvs) k = Inr (case map_of kvs k of Some x \<Rightarrow> x | None \<Rightarrow> JUndefined)"
| "read_prop (JArr xs kvs) k = Inr (case map_of kvs k of Some x \<Rightarrow> x | None \<Rightarrow> JUndefined)"
| "read_prop (JCtor c) k = Inr (if k = ''name'' then JStr (ctor_name c) else JUndefined)"
| "read_prop (JBool b) k = Inr JUndefined"
| "read_prop (JNum n) k = Inr JUndefined"
| "read_prop (JStr s) k = Inr JUndefined"

text \<open>Reading along a path of property names, as in \<open>Schema.models.User.email\<close>.\<close>

fun path :: "jsval \<Rightarrow> string list \<Rightarrow> error + jsval" where
  "path v [] = Inr v"
| "path v (k # ks) = (case read_prop v k of Inl e \<Rightarrow> Inl e | Inr x \<Rightarrow> path x ks)"

text \<open>
  Reading the property \<open>k\<close> of a value of the library, for the property names that the
  script reads on such values (\<open>id\<close>, \<open>name\<close>, \<open>price\<close>, \<open>start\<close>, \<open>email\<close>,
  \<open>pid\<close>; none is inherited from a prototype): again \<open>undefined\<close> and \<open>null\<close> throw
  a \<open>TypeError\<close> and a missing property reads as \<open>undefined\<close>.
\<close>

fun get_prop :: "libval \<Rightarrow> string \<Rightarrow> error + libval" where
  "get_prop LUndefined k = Inl TypeError"
| "get_prop LNull k = Inl TypeError"
| "get_prop (LObj kvs) k = Inr (case map_of kvs k of Some x \<Rightarrow> x | None \<Rightarrow> LUndefined)"
| "get_prop (LArr xs kvs) k = Inr (case map_of kvs k of Some x \<Rightarrow> x | None \<Rightarrow> LUndefined)"
| "get_prop (LModel kvs) k = Inr (case map_of kvs k of Some x \<Rightarrow> x | None \<Rightarrow> LUndefined)"
| "get_prop (LBool b) k = Inr LUndefined"
| "get_prop (LNum n) k = Inr LUndefined"
| "get_prop (LStr s) k = Inr LUndefined"

text \<open>The condition of a \<open>while\<close>: which values count as true.\<close>

fun truthy :: "libval \<Rightarrow> bool" where
  "truthy LUndefined = False"
| "truthy LNull = False"
| "truthy (LBool b) = b"
| "truthy (LNum n) = (n \<noteq> 0)"
| "truthy (LStr s) = (s \<noteq> [])"
| "truthy (LArr xs kvs) = True"
| "truthy (LObj kvs) = True"
| "truthy (LModel kvs) = True"


subsection \<open>The schema\<close>

text \<open>\<open>const Match = {}\<close>: every \<open>Match.x\<close> of the schema reads as \<open>undefined\<close>.\<close>

definition Match :: jsval where
  "Match = JObj []"

definition Match_field :: "string \<Rightarrow> jsval" where
  "Match_field k = (case read_prop Match k of Inr x \<Rightarrow> x | Inl e \<Rightarrow> JUndefined)"

definition Account_model :: jsval where
  "Account_model = JObj
     [(''pk'', JObj [(''type'', JCtor CString), (''value'', JStr ''account#${id}'')]),
      (''sk'', JObj [(''type'', JCtor CString), (''value'', JStr ''account#'')]),
      (''id'', JObj [(''type'', JCtor CString), (''generate'', JStr ''ulid''),
         (''validate'', Match_field ''ulid'')]),
      (''name'', JObj [(''type'', JCtor CString), (''required'', JBool True),
         (''unique'', JBool True), (''validate'', Match_field ''name'')]),
      (''balance'', JObj [(''type'', JCtor CNumber), (''default'', JNum 0)]),
      (''gs1pk'', JObj [(''type'', JCtor CString), (''value'', JStr ''account#'')]),
      (''gs1sk'', JObj [(''type'', JCtor CString),
         (''value'', JStr ''account#${name}${id}'')])]"

definition User_model :: jsval where
  "User_model = JObj
     [(''pk'', JObj [(''type'', JCtor CString), (''value'', JStr ''account#${accountId}'')]),
      (''sk'', JObj [(''type'', JCtor CString), (''value'', JStr ''user#${email}'')]),
      (''accountId'', JObj [(''type'', JCtor CString), (''required'', JBool True)]),
      (''id'', JObj [(''type'', JCtor CString), (''generate'', JStr ''ulid''),
         (''validate'', Match_field ''ulid'')]),
      (''name'', JObj [(''type'', JCtor CString), (''required'', JBool True),
         (''validate'', Match_field ''name'')]),
      (''email'', JObj [(''type'', JCtor CString), (''required'', JBool True),
         (''validate'', Match_field ''email''), (''crypt'', JBool True)]),
      (''role'', JObj [(''type'', JCtor CString), (''default'', JStr ''user''),
         (''enum'', JArr [JStr ''admin'', JStr ''user''] [])]),
      (''address'', JObj [(''type'', JCtor CObject), (''default'', JObj []),
         (''schema'', JObj
            [(''street'', JObj [(''type'', JCtor CString)]),
             (''city'', JObj [(''type'', JCtor CString)]),
             (''zip'', JObj [(''type'', JCtor CString)])])]),
      (''status'', JObj [(''type'', JCtor CString), (''required'', JBool True),
         (''default'', JStr ''active''),
         (''enum'', JArr [JStr ''active'', JStr ''inactive''] [])]),
      (''balance'', JObj [(''type'', JCtor CNumber), (''default'', JNum 0)]),
      (''gs1pk'', JObj [(''type'', JCtor CString), (''value'', JStr ''user#'')]),
      (''gs1sk'', JObj [(''type'', JCtor CString),
         (''value'', JStr ''user#${name}#${id}'')])]"

definition Product_model :: jsval where
  "Product_model = JObj
     [(''pk'', JObj [(''type'', JCtor CString), (''value'', JStr ''product#${id}'')]),
      (''sk'', JObj [(''type'', JCtor CString), (''value'', JStr ''product#'')]),
      (''id'', JObj [(''type'', JCtor CString), (''generate'', JStr ''ulid''),
         (''validate'', Match_field ''ulid'')]),
      (''name'', JObj [(''type'', JCtor CString), (''required'', JBool True)]),
      (''price'', JObj [(''type'', JCtor CNumber), (''required'', JBool True)]),
      (''gs1pk'', JObj [(''type'', JCtor CString), (''value'', JStr ''product#'')]),
      (''gs1sk'', JObj [(''type'', JCtor CString),
         (''value'', JStr ''product#${name}#${id}'')])]"

definition Invoice_model :: jsval where
  "Invoice_model = JObj
     [(''pk'', JObj [(''type'', JCtor CString), (''value'', JStr ''account#${accountId}'')]),
      (''sk'', JObj [(''type'', JCtor CString), (''value'', JStr ''invoice#${id}'')]),
      (''accountId'', JObj [(''type'', JCtor CString), (''required'', JBool True)]),
      (''date'', JObj [(''type'', JCtor CDate)]),
      (''id'', JObj [(''type'', JCtor CString), (''generate'', JStr ''ulid'')]),
      (''product'', JObj [(''type'', JCtor CString)]),
      (''count'', JObj [(''type'', JCtor CNumber)]),
      (''total'', JObj [(''type'', JCtor CNumber)]),
      (''gs1pk'', JObj [(''type'', JCtor CString), (''value'', JStr ''invoice#'')]),
      (''gs1sk'', JObj [(''type'', JCtor CString),
         (''value'', JStr ''invoice#${date}#${id}'')])]"

definition Schema :: jsval where
  "Schema = JObj
     [(''format'', JStr ''onetable:1.1.0''),
      (''version'', JStr ''0.0.1''),
      (''indexes'', JObj
         [(''primary'', JObj [(''hash'', JStr ''pk''), (''sort'', JStr ''sk'')]),
          (''gs1'', JObj [(''hash'', JStr ''gs1pk''), (''sort'', JStr ''gs1sk''),
             (''project'', JArr [JStr ''gs1pk'', JStr ''gs1sk''] [])])]),
      (''models'', JObj
         [(''Account'', Account_model),
          (''User'', User_model),
          (''Product'', Product_model),
          (''Invoice'', Invoice_model)]),
      (''params'', JObj [(''isoDates'', JBool True), (''timestamps'', JBool True)])]"

text \<open>
  The variables of a key template of the schema, such as \<open>user#${email}\<close>: the names
  between \<open>${\<close> and \<open>}\<close>, in order.
\<close>

function template_vars :: "string \<Rightarrow> string list" where
  "template_vars [] = []"
| "template_vars [c] = []"
| "template_vars (c # d # cs) =
     (if c = CHR ''$'' \<and> d = CHR ''{''
      then takeWhile (\<lambda>x. x \<noteq> CHR ''}'') cs
             # template_vars (dropWhile (\<lambda>x. x \<noteq> CHR ''}'') cs)
      else template_vars (d # cs))"
  by pat_completeness auto
termination
  by (relation "measure length") (auto simp: less_Suc_eq_le intro: le_SucI length_dropWhile_le)

declare template_vars.simps [simp del]

subsection \<open>The world of the script\<close>

text \<open>
  The library (the data-mapping library and the database emulator) is not part of the
  repository. The script only calls it, so the library is a parameter of the model: an
  environment that says, for each call the script makes and waits for, whether the call
  throws or what it returns. \<open>env_lib env n\<close> is the outcome of call number \<open>n\<close>
  (counted from 0 in the order of the calls), \<open>env_spawn\<close> is the outcome of
  \<open>DynamoDbLocal.spawn\<close> and \<open>env_kill\<close> says whether \<open>process.kill\<close> throws on a
  given argument.
\<close>

datatype outcome = Throws error | Returns libval

record env =
  env_lib :: "nat \<Rightarrow> outcome"
  env_spawn :: outcome
  env_kill :: "libval \<Rightarrow> error option"

text \<open>
  What the script does to the outside, in order. The arguments of a library call are
  recorded for the batched creations and for \<open>batchWrite\<close>; for the other calls the
  receiver and the method are recorded.
\<close>

datatype event =
    Spawn nat
  | LibCall string string
  | UserCreateBatch jsval
  | BatchWrite "jsval list"
  | ConsoleError error
  | ProcessKill libval

text \<open>
  The state: the global variable \<open>dynamodb\<close>, the number of library calls waited for so
  far, and the events so far.
\<close>

record world =
  dynamodb :: libval
  ncalls :: nat
  events :: "event list"

definition world0 :: world where
  "world0 = \<lparr>dynamodb = LNull, ncalls = 0, events = []\<rparr>"

text \<open>
  A computation of the script either does not return (\<open>None\<close>), or throws, or returns a
  value, and leaves a new state.
\<close>

type_synonym 'a js = "world \<Rightarrow> ((error + 'a) \<times> world) option"

definition js_return :: "'a \<Rightarrow> 'a js" where
  "js_return x w = Some (Inr x, w)"

definition js_throw :: "error \<Rightarrow> 'a js" where
  "js_throw e w = Some (Inl e, w)"

definition js_bind :: "'a js \<Rightarrow> ('a \<Rightarrow> 'b js) \<Rightarrow> 'b js" where
  "js_bind m f w =
     (case m w of
        None \<Rightarrow> None
      | Some (Inl e, w') \<Rightarrow> Some (Inl e, w')
      | Some (Inr x, w') \<Rightarrow> f x w')"


definition js_ignore :: "'a js \<Rightarrow> unit js" where
  "js_ignore m = js_bind m (\<lambda>x. js_return ())"


definition emit :: "event \<Rightarrow> unit js" where
  "emit ev w = Some (Inr (), w\<lparr>events := events w @ [ev]\<rparr>)"

text \<open>
  A call of the library that the script waits for (\<open>await\<close>, or a synchronous method):
  the call is recorded, and its outcome is the environment's.
\<close>

definition await_call :: "env \<Rightarrow> event \<Rightarrow> libval js" where
  "await_call env ev w =
     (let w' = w\<lparr>ncalls := ncalls w + 1, events := events w @ [ev]\<rparr>
      in case env_lib env (ncalls w) of
           Throws e \<Rightarrow> Some (Inl e, w')
         | Returns x \<Rightarrow> Some (Inr x, w'))"






subsection \<open>The batch-creation loop of \<open>test\<close>\<close>

text \<open>The properties of the user created in round \<open>i\<close> of the loop.\<close>

definition user_props :: "nat \<Rightarrow> jsval" where
  "user_props i = JObj
     [(''name'', JStr (''user'' @ fmt_d_nat i)),
      (''email'', JStr (''user'' @ fmt_d_nat i @ ''@acme.com''))]"

definition batchWrite :: "env \<Rightarrow> jsval list \<Rightarrow> unit js" where
  "batchWrite env batch = js_ignore (await_call env (BatchWrite batch))"

text \<open>
  Modelled from the spec: \<open>User.create\<close> with the option \<open>batch\<close> (the library is absent
  from the repository) does not write; it adds the creation to the pending batch object
  it is given, which \<open>table.batchWrite\<close> then submits.

  The loop \<open>while (i++ < 200)\<close>, from the values \<open>i\<close>, \<open>count\<close> and \<open>batch\<close> of its
  variables; it returns their values when the loop exits.
\<close>

function batch_loop :: "env \<Rightarrow> nat \<Rightarrow> nat \<Rightarrow> jsval list \<Rightarrow> (nat \<times> nat \<times> jsval list) js" where
  "batch_loop env i count batch w =
     (if i < 200 then
        (let i' = i + 1;
             w1 = w\<lparr>events := events w @ [UserCreateBatch (user_props i')]\<rparr>;
             batch' = batch @ [user_props i'];
             count' = count + 1
         in if count' \<ge> 25 then
              (case batchWrite env batch' w1 of
                 None \<Rightarrow> None
               | Some (Inl e, w2) \<Rightarrow> Some (Inl e, w2)
               | Some (Inr x, w2) \<Rightarrow> batch_loop env i' 0 [] w2)
            else batch_loop env i' count' batch' w1)
      else Some (Inr (i + 1, count, batch), w))"
  by pat_completeness auto
termination
  by (relation "measure (\<lambda>(env, i, count, batch, w). 200 - i)") auto

declare batch_loop.simps [simp del]

subsection \<open>The paging loop of \<open>test\<close>\<close>

text \<open>
  \<open>do { users = await User.find({}, {start, limit: 25}); start = users.start }
  while (users.start)\<close>: the loop goes on for as long as the library returns a cursor, so
  it need not end.
\<close>

partial_function (option) paging :: "env \<Rightarrow> world \<Rightarrow> ((error + unit) \<times> world) option" where
  "paging env w =
     (case await_call env (LibCall ''User'' ''find'') w of
        None \<Rightarrow> None
      | Some (Inl e, w1) \<Rightarrow> Some (Inl e, w1)
      | Some (Inr users, w1) \<Rightarrow>
          (case get_prop users ''start'' of
             Inl e \<Rightarrow> Some (Inl e, w1)
           | Inr start \<Rightarrow> if truthy start then paging env w1 else Some (Inr (), w1)))"

subsection \<open>The rest of \<open>test\<close>\<close>




subsection \<open>\<open>start\<close>, \<open>stop\<close> and \<open>main\<close>\<close>

definition PORT :: nat where
  "PORT = 4567"

text \<open>
  \<open>start\<close> spawns the database process and keeps it in \<open>dynamodb\<close>; the wait of one
  second that follows has no effect on the state. \<open>stop\<close> reads \<open>dynamodb.pid\<close> and
  calls \<open>process.kill\<close> on it.
\<close>

definition start :: "env \<Rightarrow> unit js" where
  "start env w =
     (let w' = w\<lparr>events := events w @ [Spawn PORT]\<rparr>
      in case env_spawn env of
           Throws e \<Rightarrow> Some (Inl e, w')
         | Returns child \<Rightarrow> Some (Inr (), w'\<lparr>dynamodb := child\<rparr>))"



subsection \<open>Reading the events\<close>

text \<open>
  The users whose creation was added to a batch, and the batches submitted with
  \<open>batchWrite\<close>, in the order of the events.
\<close>

fun created :: "event list \<Rightarrow> jsval list" where
  "created [] = []"
| "created (UserCreateBatch p # evs) = p # created evs"
| "created (ev # evs) = created evs"

fun written :: "event list \<Rightarrow> jsval list list" where
  "written [] = []"
| "written (BatchWrite b # evs) = b # written evs"
| "written (ev # evs) = written evs"

text \<open>
  Round \<open>k\<close> of the batches (from 0): the 25 users numbered \<open>25 k + 1\<close> to
  \<open>25 k + 25\<close>, and the events of their creation followed by their submission.
\<close>

definition batch_users :: "nat \<Rightarrow> jsval list" where
  "batch_users k = map user_props [25 * k + 1 ..< 25 * k + 26]"

definition batch_events :: "nat \<Rightarrow> event list" where
  "batch_events k = map UserCreateBatch (batch_users k) @ [BatchWrite (batch_users k)]"

text \<open>
  The number that a decimal numeral stands for: decimal numerals determine the number,
  so that users of different rounds of the loop differ.
\<close>

definition digit_val :: "char \<Rightarrow> nat" where
  "digit_val c = of_char c - 48"

definition decimal_val :: "string \<Rightarrow> nat" where
  "decimal_val s = foldl (\<lambda>a c. 10 * a + digit_val c) 0 s"



definition ends :: "'a js \<Rightarrow> bool" where
  "ends m = (\<forall>w. m w \<noteq> None)"

subsection \<open>Three environments\<close>





section \<open>Properties of the flag helpers\<close>

lemmas flags_eq_iff = bit_eq_iff [where ?'a = "64 word"]

lemma bit_flag: "k < 64 \<Longrightarrow> bit (push_bit k 1 :: Flags) n = (n = k)"
  by (auto simp: bit_push_bit_iff bit_1_iff bit_exp_iff)

lemma bit_FlagUp: "bit FlagUp n = (n = 0)"
  unfolding FlagUp_def by (rule bit_flag) simp

lemma bit_FlagBroadcast: "bit FlagBroadcast n = (n = 1)"
  unfolding FlagBroadcast_def by (rule bit_flag) simp

lemma bit_FlagMulticast: "bit FlagMulticast n = (n = 4)"
  unfolding FlagMulticast_def by (rule bit_flag) simp

lemma has_flag_iff_bit:
  assumes "\<And>n. bit f n = (n = k)"
  shows "(v AND f = f) = bit (v :: Flags) k"
proof -
  have "(v AND f = f) = (\<forall>n<64. (bit v n \<and> n = k) = (n = k))"
    by (simp add: flags_eq_iff bit_and_iff assms)
  also have "\<dots> = (k < 64 \<longrightarrow> bit v k)"
    by auto
  also have "\<dots> = bit v k"
    using assms [of k] bit_imp_le_length [of f k] by auto
  finally show ?thesis .
qed

lemma IsUp_bit: "IsUp v = bit v 0"
  unfolding IsUp_def by (rule has_flag_iff_bit) (rule bit_FlagUp)

lemma bit_TurnDown: "bit (TurnDown v) n = (bit v n \<and> n \<noteq> 0)"
  unfolding TurnDown_def
  by (auto simp: bit_and_iff bit_not_iff bit_FlagUp dest: bit_imp_possible_bit)

lemma bit_SetBroadcast: "bit (SetBroadcast v) n = (bit v n \<or> n = 1)"
  unfolding SetBroadcast_def by (auto simp: bit_or_iff bit_FlagBroadcast)

lemma IsCast_bit: "IsCast v = (bit v 1 \<or> bit v 4)"
proof -
  have "(v AND (FlagBroadcast OR FlagMulticast) = 0)
      = (\<forall>n<64. \<not> (bit v n \<and> (n = 1 \<or> n = 4)))"
    by (simp add: flags_eq_iff bit_and_iff bit_or_iff bit_FlagBroadcast bit_FlagMulticast)
  also have "\<dots> = (\<not> (bit v 1 \<or> bit v 4))"
  proof
    assume a: "\<forall>n<64. \<not> (bit v n \<and> (n = 1 \<or> n = 4))"
    from a [rule_format, of 1] a [rule_format, of 4] show "\<not> (bit v 1 \<or> bit v 4)"
      by simp
  next
    assume "\<not> (bit v 1 \<or> bit v 4)"
    then show "\<forall>n<64. \<not> (bit v n \<and> (n = 1 \<or> n = 4))"
      by auto
  qed
  finally show ?thesis
    by (simp add: IsCast_def)
qed

lemma and_not_or_same: "(v AND NOT b) OR b = v OR (b :: Flags)"
  by (auto simp: flags_eq_iff bit_and_iff bit_or_iff bit_not_iff)

lemma or_absorbs_iff: "(v OR b = v) = (v AND b = (b :: Flags))"
  by (auto simp: flags_eq_iff bit_and_iff bit_or_iff)

text \<open>
  C1 (as the claim states it, refuted). The claim says that clearing a bit with AND-NOT
  and then setting the same bit with OR restores the original value, for every value.
  On the value 0, which lacks \<open>FlagUp\<close>, \<open>TurnDown\<close> changes nothing and the OR
  then sets the bit: the result is 1, not 0.
\<close>

theorem TurnDown_or_FlagUp_counterexample: "TurnDown 0 OR FlagUp \<noteq> 0"
  by (simp add: TurnDown_def FlagUp_def)

text \<open>
  C1 (amended). For every \<open>Flags\<close> value \<open>v\<close> and every bit pattern \<open>b\<close>, AND-NOT of
  \<open>b\<close> followed by OR of \<open>b\<close> yields \<open>v | b\<close>, which is \<open>v\<close> exactly when \<open>v\<close>
  already has the bits of \<open>b\<close>. In particular, OR-ing \<open>FlagUp\<close> into \<open>TurnDown v\<close>
  yields \<open>v | FlagUp\<close>, and restores \<open>v\<close> exactly when \<open>IsUp v\<close> holds.
\<close>

theorem TurnDown_or_FlagUp_roundtrip:
  "TurnDown v OR FlagUp = v OR FlagUp
   \<and> (TurnDown v OR FlagUp = v) = IsUp v
   \<and> (v AND NOT b) OR b = v OR b
   \<and> ((v AND NOT b) OR b = v) = (v AND b = b)"
  unfolding TurnDown_def IsUp_def
  by (simp add: and_not_or_same or_absorbs_iff)

text \<open>
  C2. For every \<open>Flags\<close> value \<open>v\<close>, \<open>TurnDown\<close> clears exactly the \<open>FlagUp\<close> bit
  (bit 0): afterwards \<open>IsUp\<close> is false, and every other bit \<open>n\<close> of the value is as
  it was before the call.
\<close>

theorem TurnDown_clears_exactly_FlagUp:
  "\<not> IsUp (TurnDown v) \<and> (n \<noteq> 0 \<longrightarrow> bit (TurnDown v) n = bit v n)"
  by (simp add: IsUp_bit bit_TurnDown)

theorem TurnDown_clears_exactly_FlagUp_witness:
  "\<not> IsUp (TurnDown 17) \<and> (4::nat) \<noteq> 0 \<and> bit (TurnDown 17) 4 = bit (17::Flags) 4
   \<and> bit (17::Flags) 4 \<and> IsUp 17"
  using TurnDown_clears_exactly_FlagUp [of 17 4]
  by (simp add: IsUp_def FlagUp_def)

text \<open>
  C3. For every \<open>Flags\<close> value \<open>v\<close> that lacks the \<open>FlagBroadcast\<close> bit
  (\<open>v & FlagBroadcast == 0\<close>), \<open>SetBroadcast\<close> sets exactly that bit: the new value is
  \<open>v | FlagBroadcast\<close>, it exceeds the old one by exactly \<open>FlagBroadcast\<close>, bit 1 is
  set in it, and every other bit \<open>n\<close> is unchanged.
\<close>

theorem SetBroadcast_sets_exactly_FlagBroadcast:
  assumes "v AND FlagBroadcast = 0"
  shows "SetBroadcast v = v OR FlagBroadcast
         \<and> SetBroadcast v = v + FlagBroadcast
         \<and> SetBroadcast v AND FlagBroadcast = FlagBroadcast
         \<and> (n \<noteq> 1 \<longrightarrow> bit (SetBroadcast v) n = bit v n)"
proof -
  have "SetBroadcast v = v + FlagBroadcast"
    unfolding SetBroadcast_def using assms by (simp add: disjunctive_add_eq_or)
  moreover have "SetBroadcast v AND FlagBroadcast = FlagBroadcast"
    by (simp add: has_flag_iff_bit [OF bit_FlagBroadcast] bit_SetBroadcast)
  moreover have "n \<noteq> 1 \<longrightarrow> bit (SetBroadcast v) n = bit v n"
    by (simp add: bit_SetBroadcast)
  ultimately show ?thesis
    by (simp add: SetBroadcast_def)
qed

theorem SetBroadcast_sets_exactly_FlagBroadcast_witness:
  "(16::Flags) AND FlagBroadcast = 0
   \<and> SetBroadcast 16 = 18
   \<and> SetBroadcast 16 = 16 + FlagBroadcast
   \<and> SetBroadcast 16 AND FlagBroadcast = FlagBroadcast
   \<and> (4::nat) \<noteq> 1 \<and> bit (SetBroadcast 16) 4 = bit (16::Flags) 4"
proof -
  have h: "(16::Flags) AND FlagBroadcast = 0"
    by (simp add: FlagBroadcast_def)
  show ?thesis
    using h SetBroadcast_sets_exactly_FlagBroadcast [OF h, of 4]
    by (simp add: FlagBroadcast_def)
qed

text \<open>
  C8. For every \<open>Flags\<close> value \<open>v\<close>, \<open>IsCast v\<close> holds if and only if \<open>v\<close> has the
  \<open>FlagBroadcast\<close> bit or the \<open>FlagMulticast\<close> bit. In particular \<open>IsCast\<close> is false on
  the value with only \<open>FlagUp\<close> set, and true on every value with \<open>FlagMulticast\<close> set,
  whatever its other bits.
\<close>

theorem IsCast_iff_Broadcast_or_Multicast:
  "IsCast v = (v AND FlagBroadcast = FlagBroadcast \<or> v AND FlagMulticast = FlagMulticast)
   \<and> IsCast FlagUp = False
   \<and> IsCast (w OR FlagMulticast) = True"
  by (simp add: IsCast_bit has_flag_iff_bit [OF bit_FlagBroadcast]
      has_flag_iff_bit [OF bit_FlagMulticast] bit_FlagUp bit_or_iff bit_FlagMulticast)

text \<open>
  C9. \<open>TurnDown\<close> and \<open>SetBroadcast\<close> are each idempotent, and they commute: applying
  \<open>TurnDown\<close> and then \<open>SetBroadcast\<close> gives the same value as applying
  \<open>SetBroadcast\<close> and then \<open>TurnDown\<close>.
\<close>

theorem TurnDown_SetBroadcast_idempotent_commute:
  "TurnDown (TurnDown v) = TurnDown v
   \<and> SetBroadcast (SetBroadcast v) = SetBroadcast v
   \<and> SetBroadcast (TurnDown v) = TurnDown (SetBroadcast v)"
  by (auto simp: flags_eq_iff bit_TurnDown bit_SetBroadcast)

section \<open>The output of the demonstration\<close>

lemmas main_defs =
  main_def main_init_def main_flags_def main_line1_def main_line2_def main_line3_def
  main_line4_def main_line5_def Printf_def Let_def

lemmas fmt_defs =
  fmt_d_def fmt_b_def fmt_t_def fmt_d_nat.simps fmt_b_nat.simps digit_char_def

lemmas flag_defs =
  FlagUp_def FlagBroadcast_def FlagMulticast_def IsUp_def TurnDown_def SetBroadcast_def
  IsCast_def

lemma main_flags_init:
  "main_flags main_init =
     \<lparr>main_a = 1, main_b = 10, main_c = 100, main_v = 18,
      main_out = [''10001 17'', ''10001 true'', ''10000 false'', ''10010 false'',
        ''10010 true'']\<rparr>"
  by (simp add: main_defs flag_defs fmt_defs)

lemma main_line1_run:
  "main_line1 \<lparr>main_a = 1, main_b = 10, main_c = c0, main_v = v0, main_out = out0\<rparr> =
     \<lparr>main_a = 1, main_b = 10, main_c = 0, main_v = v0,
      main_out = out0 @ [''Line 1 - Value of c is 0'']\<rparr>"
  by (simp add: main_line1_def Printf_def Let_def fmt_defs)

lemma main_line2_run:
  "main_line2 \<lparr>main_a = 1, main_b = 10, main_c = c0, main_v = v0, main_out = out0\<rparr> =
     \<lparr>main_a = 1, main_b = 10, main_c = 11, main_v = v0,
      main_out = out0 @ [''Line 2 - Value of c is 11'']\<rparr>"
  by (simp add: main_line2_def Printf_def Let_def fmt_defs)

lemma main_line3_run:
  "main_line3 \<lparr>main_a = 1, main_b = 10, main_c = c0, main_v = v0, main_out = out0\<rparr> =
     \<lparr>main_a = 1, main_b = 10, main_c = 11, main_v = v0,
      main_out = out0 @ [''Line 3 - Value of c is 11'']\<rparr>"
  by (simp add: main_line3_def Printf_def Let_def fmt_defs)

lemma main_line4_run:
  "main_line4 \<lparr>main_a = 1, main_b = 10, main_c = c0, main_v = v0, main_out = out0\<rparr> =
     \<lparr>main_a = 1, main_b = 10, main_c = 4, main_v = v0,
      main_out = out0 @ [''Line 4 - Value of c is 4'']\<rparr>"
  by (simp add: main_line4_def Printf_def Let_def fmt_defs)

lemma main_line5_run:
  "main_line5 \<lparr>main_a = 1, main_b = 10, main_c = c0, main_v = v0, main_out = out0\<rparr> =
     \<lparr>main_a = 1, main_b = 10, main_c = 0, main_v = v0,
      main_out = out0 @ [''Line 5 - Value of c is 0'']\<rparr>"
  by (simp add: main_line5_def Printf_def Let_def fmt_defs)

lemma main_line_effects:
  "main_line1 s = s\<lparr>main_c := main_a s AND main_b s,
     main_out := main_out s @ [''Line 1 - Value of c is '' @ fmt_d (main_a s AND main_b s)]\<rparr>"
  "main_line2 s = s\<lparr>main_c := main_a s OR main_b s,
     main_out := main_out s @ [''Line 2 - Value of c is '' @ fmt_d (main_a s OR main_b s)]\<rparr>"
  "main_line3 s = s\<lparr>main_c := main_a s XOR main_b s,
     main_out := main_out s @ [''Line 3 - Value of c is '' @ fmt_d (main_a s XOR main_b s)]\<rparr>"
  "main_line4 s = s\<lparr>main_c := push_bit 2 (main_a s),
     main_out := main_out s @ [''Line 4 - Value of c is '' @ fmt_d (push_bit 2 (main_a s))]\<rparr>"
  "main_line5 s = s\<lparr>main_c := drop_bit 2 (main_a s),
     main_out := main_out s @ [''Line 5 - Value of c is '' @ fmt_d (drop_bit 2 (main_a s))]\<rparr>"
  by (simp_all add: main_line1_def main_line2_def main_line3_def main_line4_def main_line5_def
      Printf_def Let_def)

lemma main_flags_keeps:
  "main_a (main_flags s) = main_a s \<and> main_b (main_flags s) = main_b s
   \<and> main_c (main_flags s) = main_c s"
  by (simp add: main_flags_def Printf_def Let_def)

text \<open>
  C5. After the calls of the flag helpers, which leave \<open>a\<close>, \<open>b\<close> and \<open>c\<close> as they
  are, \<open>main\<close> applies to \<open>a\<close> and \<open>b\<close> the operations AND, OR, XOR, left shift by 2
  and right shift by 2, in this order: from every state, each of the five steps assigns
  to \<open>c\<close> the result of its operation on the current \<open>a\<close> and \<open>b\<close>, leaves \<open>a\<close>,
  \<open>b\<close> and \<open>v\<close> as they are and prints the new \<open>c\<close> on a line of its own. With
  \<open>a = 1\<close> and \<open>b = 10\<close>, as \<open>main\<close> initializes them, the successive values of \<open>c\<close>
  are \<open>a & b\<close>, \<open>a | b\<close>, \<open>a ^ b\<close>, \<open>a << 2\<close>, \<open>a >> 2\<close>, that is 0, 11, 11, 4, 0,
  and the last five lines of the output show them.
\<close>

theorem main_bitwise_sequence:
  "(let s0 = main_flags main_init; s1 = main_line1 s0; s2 = main_line2 s1;
        s3 = main_line3 s2; s4 = main_line4 s3; s5 = main_line5 s4
    in main = s5
       \<and> map main_a [s0, s1, s2, s3, s4] = [1, 1, 1, 1, 1]
       \<and> map main_b [s0, s1, s2, s3, s4] = [10, 10, 10, 10, 10]
       \<and> map main_c [s1, s2, s3, s4, s5]
           = [main_a s0 AND main_b s0, main_a s1 OR main_b s1, main_a s2 XOR main_b s2,
              push_bit 2 (main_a s3), drop_bit 2 (main_a s4)]
       \<and> map main_c [s1, s2, s3, s4, s5] = [0, 11, 11, 4, 0]
       \<and> main_out s0 = [''10001 17'', ''10001 true'', ''10000 false'', ''10010 false'',
            ''10010 true'']
       \<and> main_out main = main_out s0 @
           [''Line 1 - Value of c is 0'', ''Line 2 - Value of c is 11'',
            ''Line 3 - Value of c is 11'', ''Line 4 - Value of c is 4'',
            ''Line 5 - Value of c is 0''])
   \<and> main_a (main_flags s) = main_a s \<and> main_b (main_flags s) = main_b s
   \<and> main_c (main_flags s) = main_c s
   \<and> main_line1 s = s\<lparr>main_c := main_a s AND main_b s,
         main_out := main_out s @ [''Line 1 - Value of c is '' @ fmt_d (main_a s AND main_b s)]\<rparr>
   \<and> main_line2 s = s\<lparr>main_c := main_a s OR main_b s,
         main_out := main_out s @ [''Line 2 - Value of c is '' @ fmt_d (main_a s OR main_b s)]\<rparr>
   \<and> main_line3 s = s\<lparr>main_c := main_a s XOR main_b s,
         main_out := main_out s @ [''Line 3 - Value of c is '' @ fmt_d (main_a s XOR main_b s)]\<rparr>
   \<and> main_line4 s = s\<lparr>main_c := push_bit 2 (main_a s),
         main_out := main_out s @ [''Line 4 - Value of c is '' @ fmt_d (push_bit 2 (main_a s))]\<rparr>
   \<and> main_line5 s = s\<lparr>main_c := drop_bit 2 (main_a s),
         main_out := main_out s @ [''Line 5 - Value of c is '' @ fmt_d (drop_bit 2 (main_a s))]\<rparr>"
proof -
  have closed: "(let s0 = main_flags main_init; s1 = main_line1 s0; s2 = main_line2 s1;
        s3 = main_line3 s2; s4 = main_line4 s3; s5 = main_line5 s4
    in main = s5
       \<and> map main_a [s0, s1, s2, s3, s4] = [1, 1, 1, 1, 1]
       \<and> map main_b [s0, s1, s2, s3, s4] = [10, 10, 10, 10, 10]
       \<and> map main_c [s1, s2, s3, s4, s5]
           = [main_a s0 AND main_b s0, main_a s1 OR main_b s1, main_a s2 XOR main_b s2,
              push_bit 2 (main_a s3), drop_bit 2 (main_a s4)]
       \<and> map main_c [s1, s2, s3, s4, s5] = [0, 11, 11, 4, 0]
       \<and> main_out s0 = [''10001 17'', ''10001 true'', ''10000 false'', ''10010 false'',
            ''10010 true'']
       \<and> main_out main = main_out s0 @
           [''Line 1 - Value of c is 0'', ''Line 2 - Value of c is 11'',
            ''Line 3 - Value of c is 11'', ''Line 4 - Value of c is 4'',
            ''Line 5 - Value of c is 0''])"
    unfolding main_def main_flags_init main_line1_run main_line2_run main_line3_run
      main_line4_run main_line5_run Let_def
    by simp
  show ?thesis
    using closed main_flags_keeps [of s]
    by (simp only: main_line_effects [symmetric] simp_thms)
qed

section \<open>The declarations of the schema\<close>

lemmas schema_defs =
  Schema_def Account_model_def User_model_def Match_field_def Match_def

text \<open>
  C6. The \<open>User\<close> model declares the field \<open>email\<close> as a required string that is
  encrypted (\<open>crypt\<close>) and uniquely indexed: \<open>email\<close> is the one variable of the sort
  key \<open>sk\<close> of the model, \<open>user#${email}\<close>, and \<open>sk\<close> is the sort key of the primary
  index of the table, under the partition key \<open>pk\<close> of the owning account. The field
  \<open>role\<close> is enumerated over exactly \<open>admin\<close> and \<open>user\<close>, the field \<open>status\<close> over
  exactly \<open>active\<close> and \<open>inactive\<close>.
\<close>

theorem User_model_declarations:
  "path Schema [''models'', ''User'', ''email'', ''type''] = Inr (JCtor CString)
   \<and> path Schema [''models'', ''User'', ''email'', ''required''] = Inr (JBool True)
   \<and> path Schema [''models'', ''User'', ''email'', ''crypt''] = Inr (JBool True)
   \<and> path Schema [''indexes'', ''primary''] =
         Inr (JObj [(''hash'', JStr ''pk''), (''sort'', JStr ''sk'')])
   \<and> path Schema [''models'', ''User'', ''pk''] =
         Inr (JObj [(''type'', JCtor CString), (''value'', JStr ''account#${accountId}'')])
   \<and> path Schema [''models'', ''User'', ''sk''] =
         Inr (JObj [(''type'', JCtor CString), (''value'', JStr ''user#${email}'')])
   \<and> template_vars ''user#${email}'' = [''email'']
   \<and> path Schema [''models'', ''User'', ''role'', ''enum''] =
         Inr (JArr [JStr ''admin'', JStr ''user''] [])
   \<and> path Schema [''models'', ''User'', ''status'', ''enum''] =
         Inr (JArr [JStr ''active'', JStr ''inactive''] [])"
  by (simp add: schema_defs template_vars.simps)

text \<open>
  C7. The \<open>Account\<close> model declares the identifier \<open>id\<close> as a generated ULID (a
  time-sortable token), the display name \<open>name\<close> as required and unique, and \<open>balance\<close>
  as a number with default 0.
\<close>

theorem Account_model_declarations:
  "path Schema [''models'', ''Account'', ''id'', ''type''] = Inr (JCtor CString)
   \<and> path Schema [''models'', ''Account'', ''id'', ''generate''] = Inr (JStr ''ulid'')
   \<and> path Schema [''models'', ''Account'', ''name'', ''type''] = Inr (JCtor CString)
   \<and> path Schema [''models'', ''Account'', ''name'', ''required''] = Inr (JBool True)
   \<and> path Schema [''models'', ''Account'', ''name'', ''unique''] = Inr (JBool True)
   \<and> path Schema [''models'', ''Account'', ''balance'', ''type''] = Inr (JCtor CNumber)
   \<and> path Schema [''models'', ''Account'', ''balance'', ''default''] = Inr (JNum 0)"
  by (simp add: schema_defs)

section \<open>The batch-creation loop\<close>

lemma batch_loop_fill:
  "count + n < 25 \<Longrightarrow> i + n \<le> 200 \<Longrightarrow>
   batch_loop env i count batch w =
   batch_loop env (i + n) (count + n) (batch @ map user_props [i + 1 ..< i + n + 1])
     (w\<lparr>events := events w @ map UserCreateBatch (map user_props [i + 1 ..< i + n + 1])\<rparr>)"
proof (induction n arbitrary: i count batch w)
  case 0
  then show ?case by simp
next
  case (Suc n)
  have step: "batch_loop env i count batch w =
      batch_loop env (i + 1) (count + 1) (batch @ [user_props (i + 1)])
        (w\<lparr>events := events w @ [UserCreateBatch (user_props (i + 1))]\<rparr>)"
    using Suc.prems by (subst batch_loop.simps) (simp add: Let_def)
  have range: "[i + 1 ..< i + Suc n + 1] = (i + 1) # [i + 1 + 1 ..< i + 1 + n + 1]"
    by (simp add: upt_conv_Cons)
  show ?case
    using Suc.prems
    by (simp only: step range Suc.IH [of "count + 1" "i + 1"]) simp
qed

lemma batch_loop_submit:
  assumes "i < 200" and "env_lib env (ncalls w) = Returns v"
  shows "batch_loop env i 24 batch w =
         batch_loop env (i + 1) 0 []
           (w\<lparr>ncalls := ncalls w + 1,
              events := events w @
                [UserCreateBatch (user_props (i + 1)), BatchWrite (batch @ [user_props (i + 1)])]\<rparr>)"
  using assms
  by (subst batch_loop.simps)
    (simp add: Let_def batchWrite_def js_ignore_def js_bind_def await_call_def js_return_def)

lemma batch_loop_round:
  assumes "i + 25 \<le> 200" and "env_lib env (ncalls w) = Returns v"
  shows "batch_loop env i 0 [] w =
         batch_loop env (i + 25) 0 []
           (w\<lparr>ncalls := ncalls w + 1,
              events := events w @ map UserCreateBatch (map user_props [i + 1 ..< i + 26])
                @ [BatchWrite (map user_props [i + 1 ..< i + 26])]\<rparr>)"
proof -
  let ?us = "map user_props [i + 1 ..< i + 25]"
  let ?w1 = "w\<lparr>events := events w @ map UserCreateBatch ?us\<rparr>"
  have e1: "i + 24 + 1 = i + 25"
    by simp
  have "[i + 1 ..< Suc (i + 25)] = [i + 1 ..< i + 25] @ [i + 25]"
    by (rule upt_Suc_append) simp
  moreover have "Suc (i + 25) = i + 26"
    by simp
  ultimately have last: "[i + 1 ..< i + 26] = [i + 1 ..< i + 25] @ [i + 25]"
    by (simp only:)
  have "batch_loop env i 0 [] w = batch_loop env (i + 24) 24 ?us ?w1"
    using batch_loop_fill [of 0 24 i env "[]" w] assms(1) unfolding e1 by simp
  also have "\<dots> = batch_loop env (i + 24 + 1) 0 []
      (?w1\<lparr>ncalls := ncalls ?w1 + 1,
         events := events ?w1 @
           [UserCreateBatch (user_props (i + 24 + 1)), BatchWrite (?us @ [user_props (i + 24 + 1)])]\<rparr>)"
    using assms by (intro batch_loop_submit [where v = v]) simp_all
  also have "\<dots> = batch_loop env (i + 25) 0 []
      (w\<lparr>ncalls := ncalls w + 1,
         events := events w @ map UserCreateBatch (map user_props [i + 1 ..< i + 26])
           @ [BatchWrite (map user_props [i + 1 ..< i + 26])]\<rparr>)"
    unfolding e1 last by simp
  finally show ?thesis .
qed

lemma batch_loop_rounds:
  "n \<le> 8 \<Longrightarrow> (\<forall>k<n. \<exists>v. env_lib env (ncalls w + k) = Returns v) \<Longrightarrow>
   batch_loop env (25 * (8 - n)) 0 [] w =
   Some (Inr (201, 0, []),
     w\<lparr>ncalls := ncalls w + n, events := events w @ concat (map batch_events [8 - n ..< 8])\<rparr>)"
proof (induction n arbitrary: w)
  case 0
  show ?case by (subst batch_loop.simps) simp
next
  case (Suc n)
  from Suc.prems(2) obtain v where v: "env_lib env (ncalls w) = Returns v"
    by force
  define j where "j = 7 - n"
  have j: "8 - Suc n = j" "25 * j + 25 = 25 * (8 - n)" "j < 8" "Suc j = 8 - n"
    using Suc.prems(1) by (simp_all add: j_def)
  let ?w2 = "w\<lparr>ncalls := ncalls w + 1, events := events w @ batch_events j\<rparr>"
  have "25 * j + 25 \<le> 200"
    using j(3) by simp
  then have "batch_loop env (25 * j) 0 [] w = batch_loop env (25 * j + 25) 0 [] ?w2"
    using batch_loop_round [of "25 * j" env w v] v
    by (simp add: batch_events_def batch_users_def)
  then have round: "batch_loop env (25 * j) 0 [] w = batch_loop env (25 * (8 - n)) 0 [] ?w2"
    by (simp only: j(2))
  have rest: "\<forall>k<n. \<exists>v. env_lib env (ncalls ?w2 + k) = Returns v"
  proof (intro allI impI)
    fix k assume "k < n"
    then have "Suc k < Suc n" by simp
    with Suc.prems(2) have "\<exists>v. env_lib env (ncalls w + Suc k) = Returns v" by blast
    then show "\<exists>v. env_lib env (ncalls ?w2 + k) = Returns v" by simp
  qed
  have upt: "[j ..< 8] = j # [8 - n ..< 8]"
    using j(3) j(4) by (simp only: upt_conv_Cons)
  have "n \<le> 8"
    using Suc.prems(1) by simp
  from Suc.IH [OF this rest]
  have "batch_loop env (25 * j) 0 [] w =
    Some (Inr (201, 0, []),
      ?w2\<lparr>ncalls := ncalls ?w2 + n,
        events := events ?w2 @ concat (map batch_events [8 - n ..< 8])\<rparr>)"
    by (simp only: round)
  also have "?w2\<lparr>ncalls := ncalls ?w2 + n,
        events := events ?w2 @ concat (map batch_events [8 - n ..< 8])\<rparr> =
      w\<lparr>ncalls := ncalls w + Suc n, events := events w @ concat (map batch_events [j ..< 8])\<rparr>"
    by (simp add: upt)
  finally show ?case
    by (simp only: j(1))
qed

lemma batch_loop_all:
  assumes "\<forall>k<8. \<exists>v. env_lib env (ncalls w + k) = Returns v"
  shows "batch_loop env 0 0 [] w =
    Some (Inr (201, 0, []),
     w\<lparr>ncalls := ncalls w + 8, events := events w @ concat (map batch_events [0 ..< 8])\<rparr>)"
  using batch_loop_rounds [of 8 env w] assms by simp

lemma created_append: "created (xs @ ys) = created xs @ created ys"
  by (induction xs rule: created.induct) simp_all

lemma written_append: "written (xs @ ys) = written xs @ written ys"
  by (induction xs rule: written.induct) simp_all

lemma created_creations: "created (map UserCreateBatch ps) = ps"
  by (induction ps) simp_all

lemma written_creations: "written (map UserCreateBatch ps) = []"
  by (induction ps) simp_all

lemma created_batch_events: "created (batch_events k) = batch_users k"
  by (simp add: batch_events_def created_append created_creations)

lemma written_batch_events: "written (batch_events k) = [batch_users k]"
  by (simp add: batch_events_def written_append written_creations)

lemma created_rounds: "created (concat (map batch_events ks)) = concat (map batch_users ks)"
  by (induction ks) (simp_all add: created_append created_batch_events)

lemma written_rounds: "written (concat (map batch_events ks)) = map batch_users ks"
  by (induction ks) (simp_all add: written_append written_batch_events)

lemma length_batch_users: "length (batch_users k) = 25"
  by (simp add: batch_users_def)

lemma concat_batch_users: "concat (map batch_users [0 ..< n]) = map user_props [1 ..< 25 * n + 1]"
proof (induction n)
  case 0
  show ?case by simp
next
  case (Suc n)
  have "[1 ..< (25 * n + 1) + 25] = [1 ..< 25 * n + 1] @ [25 * n + 1 ..< (25 * n + 1) + 25]"
    by (rule upt_add_eq_append) simp
  moreover have "(25 * n + 1) + 25 = 25 * Suc n + 1" and "(25 * n + 1) + 25 = 25 * n + 26"
    by simp_all
  ultimately have split: "[1 ..< 25 * Suc n + 1] = [1 ..< 25 * n + 1] @ [25 * n + 1 ..< 25 * n + 26]"
    by (simp only:)
  show ?case
    unfolding split using Suc by (simp add: batch_users_def)
qed

lemma digit_val_digit_char: "d < 10 \<Longrightarrow> digit_val (digit_char d) = d"
proof -
  assume "d < 10"
  then have "d \<in> {0, 1, 2, 3, 4, 5, 6, 7, 8, 9}"
    by auto
  then show ?thesis
    by (auto simp: digit_val_def digit_char_def)
qed

lemma decimal_val_fmt_d_nat: "decimal_val (fmt_d_nat n) = n"
proof (induction n rule: fmt_d_nat.induct)
  case (1 n)
  show ?case
  proof (cases "n < 10")
    case True
    then show ?thesis
      by (subst fmt_d_nat.simps) (simp add: decimal_val_def digit_val_digit_char)
  next
    case False
    with 1 have "decimal_val (fmt_d_nat (n div 10)) = n div 10"
      by simp
    with False show ?thesis
      by (subst fmt_d_nat.simps) (simp add: decimal_val_def digit_val_digit_char)
  qed
qed

lemma inj_user_props: "inj user_props"
proof (rule injI)
  fix i j assume "user_props i = user_props j"
  then have "fmt_d_nat i = fmt_d_nat j"
    by (simp add: user_props_def)
  then have "decimal_val (fmt_d_nat i) = decimal_val (fmt_d_nat j)"
    by simp
  then show "i = j"
    by (simp add: decimal_val_fmt_d_nat)
qed

lemma distinct_users: "distinct (map user_props [m ..< n])"
proof -
  have "inj_on user_props (set [m ..< n])"
    using inj_user_props by (auto simp: inj_on_def)
  then show ?thesis
    by (simp add: distinct_map)
qed

lemma user_props_1: "user_props (Suc 0) = JObj [(''name'', JStr ''user1''), (''email'', JStr ''user1@acme.com'')]"
  by (simp add: user_props_def fmt_d_nat.simps digit_char_def)
lemma user_props_200: "user_props 200 = JObj [(''name'', JStr ''user200''), (''email'', JStr ''user200@acme.com'')]"
  by (simp add: user_props_def fmt_d_nat.simps digit_char_def)

lemma batch_loop_submit_throws:
  assumes "i < 200" and "env_lib env (ncalls w) = Throws e"
  shows "\<exists>w'. batch_loop env i 24 batch w = Some (Inl e, w')"
  using assms
  by (subst batch_loop.simps)
    (simp add: Let_def batchWrite_def js_ignore_def js_bind_def await_call_def js_return_def)

lemma batch_loop_round_throws:
  assumes "i + 25 \<le> 200" and "env_lib env (ncalls w) = Throws e"
  shows "\<exists>w'. batch_loop env i 0 [] w = Some (Inl e, w')"
proof -
  let ?us = "map user_props [i + 1 ..< i + 24 + 1]"
  let ?w1 = "w\<lparr>events := events w @ map UserCreateBatch ?us\<rparr>"
  have "batch_loop env i 0 [] w = batch_loop env (i + 24) 24 ?us ?w1"
    using batch_loop_fill [of 0 24 i env "[]" w] assms(1) by simp
  moreover have "\<exists>w'. batch_loop env (i + 24) 24 ?us ?w1 = Some (Inl e, w')"
    using assms by (intro batch_loop_submit_throws) simp_all
  ultimately show ?thesis
    by simp
qed

lemma batch_loop_rounds_throw:
  "n \<le> 8 \<Longrightarrow> k < n \<Longrightarrow> env_lib env (ncalls w + k) = Throws e \<Longrightarrow>
   \<exists>e' w'. batch_loop env (25 * (8 - n)) 0 [] w = Some (Inl e', w')"
proof (induction n arbitrary: w k)
  case 0
  then show ?case by simp
next
  case (Suc n)
  define j where "j = 7 - n"
  have j: "8 - Suc n = j" "25 * j + 25 = 25 * (8 - n)" "25 * j + 25 \<le> 200"
    using Suc.prems(1) by (simp_all add: j_def)
  show ?case
  proof (cases "env_lib env (ncalls w)")
    case (Throws e')
    with batch_loop_round_throws [OF j(3), of env w e'] show ?thesis
      by (auto simp only: j(1))
  next
    case (Returns v)
    with Suc.prems(3) have "k \<noteq> 0"
      by (cases k) auto
    then obtain k' where k': "k = Suc k'"
      by (cases k) auto
    let ?w2 = "w\<lparr>ncalls := ncalls w + 1,
      events := events w @ map UserCreateBatch (map user_props [25 * j + 1 ..< 25 * j + 26])
        @ [BatchWrite (map user_props [25 * j + 1 ..< 25 * j + 26])]\<rparr>"
    have "batch_loop env (25 * j) 0 [] w = batch_loop env (25 * j + 25) 0 [] ?w2"
      using j(3) Returns by (rule batch_loop_round)
    then have round: "batch_loop env (25 * j) 0 [] w = batch_loop env (25 * (8 - n)) 0 [] ?w2"
      by (simp only: j(2))
    have "n \<le> 8" and "k' < n" and "env_lib env (ncalls ?w2 + k') = Throws e"
      using Suc.prems k' by simp_all
    from Suc.IH [OF this] show ?thesis
      by (simp only: j(1) round)
  qed
qed

lemma batch_loop_Inr_returns:
  assumes "batch_loop env 0 0 [] w = Some (Inr res, w')"
  shows "\<forall>k<8. \<exists>v. env_lib env (ncalls w + k) = Returns v"
proof (intro allI impI)
  fix k :: nat
  assume "k < 8"
  show "\<exists>v. env_lib env (ncalls w + k) = Returns v"
  proof (cases "env_lib env (ncalls w + k)")
    case (Returns v)
    then show ?thesis by blast
  next
    case (Throws e)
    with batch_loop_rounds_throw [of 8 k env w e] \<open>k < 8\<close> assms show ?thesis
      by simp
  qed
qed

section \<open>Runs of \<open>test\<close>\<close>




















text \<open>
  One round of the batch-creation loop, written with \<open>js_bind\<close>: the loop is orderly
  when the rest of the loop is.
\<close>

lemma batch_loop_unfold:
  "batch_loop env i count batch =
     (if i < 200 then
        js_bind (emit (UserCreateBatch (user_props (i + 1)))) (\<lambda>x.
          if count + 1 \<ge> 25 then
            js_bind (batchWrite env (batch @ [user_props (i + 1)])) (\<lambda>y.
              batch_loop env (i + 1) 0 [])
          else batch_loop env (i + 1) (count + 1) (batch @ [user_props (i + 1)]))
      else js_return (i + 1, count, batch))"
proof
  fix w
  show "batch_loop env i count batch w =
     (if i < 200 then
        js_bind (emit (UserCreateBatch (user_props (i + 1)))) (\<lambda>x.
          if count + 1 \<ge> 25 then
            js_bind (batchWrite env (batch @ [user_props (i + 1)])) (\<lambda>y.
              batch_loop env (i + 1) 0 [])
          else batch_loop env (i + 1) (count + 1) (batch @ [user_props (i + 1)]))
      else js_return (i + 1, count, batch)) w"
    by (subst batch_loop.simps)
      (auto simp: js_bind_def emit_def js_return_def Let_def split: option.splits sum.splits)
qed


text \<open>The paging loop, when it ends.\<close>

lemma paging_unfold:
  "paging env =
     js_bind (await_call env (LibCall ''User'' ''find'')) (\<lambda>users.
     js_bind (case get_prop users ''start'' of Inl e \<Rightarrow> js_throw e | Inr s \<Rightarrow> js_return s)
       (\<lambda>s. if truthy s then paging env else js_return ()))"
proof
  fix w
  show "paging env w =
     js_bind (await_call env (LibCall ''User'' ''find'')) (\<lambda>users.
     js_bind (case get_prop users ''start'' of Inl e \<Rightarrow> js_throw e | Inr s \<Rightarrow> js_return s)
       (\<lambda>s. if truthy s then paging env else js_return ())) w"
    by (subst paging.simps)
      (auto simp: js_bind_def js_return_def js_throw_def split: option.splits sum.splits)
qed





section \<open>Runs of \<open>test\<close> that end\<close>

lemma ends_return: "ends (js_return x)"
  by (simp add: ends_def js_return_def)


lemma ends_emit: "ends (emit ev)"
  by (simp add: ends_def emit_def)

lemma ends_await_call: "ends (await_call env ev)"
  by (simp add: ends_def await_call_def Let_def split: outcome.splits)

lemma ends_bind: "ends m \<Longrightarrow> (\<And>x. ends (f x)) \<Longrightarrow> ends (js_bind m f)"
  by (auto simp: ends_def js_bind_def split: option.splits sum.splits)

lemma ends_ignore: "ends m \<Longrightarrow> ends (js_ignore m)"
  unfolding js_ignore_def by (rule ends_bind) (simp_all add: ends_return)








lemma ends_batchWrite: "ends (batchWrite env batch)"
  unfolding batchWrite_def by (rule ends_ignore) (rule ends_await_call)

lemma ends_batch_loop: "ends (batch_loop env i count batch)"
proof (induction "200 - i" arbitrary: i count batch)
  case 0
  then have "\<not> i < 200" by simp
  then show ?case
    by (subst batch_loop_unfold) (simp add: ends_return)
next
  case (Suc n)
  then have "n = 200 - Suc i" and "i < 200" by simp_all
  with Suc.hyps(1) have rest: "ends (batch_loop env (Suc i) c b)" for c b
    by blast
  show ?case
    by (subst batch_loop_unfold)
      (auto intro!: ends_bind ends_emit ends_batchWrite rest simp: ends_return)
qed





section \<open>What the batch-creation loop creates and writes\<close>

text \<open>
  C10. The batch-creation loop is started in \<open>test\<close> with \<open>i = 0\<close>, \<open>count = 0\<close> and an
  empty batch. Whenever the loop exits (a call of \<open>table.batchWrite\<close> that throws ends
  \<open>test\<close> instead), it has created exactly the 200 users \<open>user1\<close> to \<open>user200\<close>, all
  different, and has called \<open>batchWrite\<close> exactly 8 times, once for every 25 creations;
  it exits with \<open>i = 201\<close>, \<open>count = 0\<close> and an empty pending batch, and the submitted
  batches, one after the other, are exactly the created users: every created user is in
  exactly one submitted batch and none is left unwritten. The loop exits whenever its
  eight calls of \<open>batchWrite\<close> return, and it always ends.
\<close>

theorem batch_loop_writes_200_users_in_8_batches:
  "(batch_loop env 0 0 [] w = Some (Inr res, w') \<longrightarrow>
      res = (201, 0, [])
      \<and> ncalls w' = ncalls w + 8
      \<and> (\<exists>evs. events w' = events w @ evs
           \<and> evs = concat (map batch_events [0 ..< 8])
           \<and> created evs = map user_props [1 ..< 201]
           \<and> length (created evs) = 200
           \<and> distinct (created evs)
           \<and> hd (created evs) =
               JObj [(''name'', JStr ''user1''), (''email'', JStr ''user1@acme.com'')]
           \<and> last (created evs) =
               JObj [(''name'', JStr ''user200''), (''email'', JStr ''user200@acme.com'')]
           \<and> length (written evs) = 8
           \<and> map length (written evs) = replicate 8 25
           \<and> written evs = map batch_users [0 ..< 8]
           \<and> concat (written evs) = created evs))
   \<and> ((\<forall>k<8. \<exists>v. env_lib env (ncalls w + k) = Returns v) \<longrightarrow>
        (\<exists>w''. batch_loop env 0 0 [] w = Some (Inr (201, 0, []), w'')))
   \<and> batch_loop env 0 0 [] w \<noteq> None"
proof (intro conjI impI)
  let ?evs = "concat (map batch_events [0 ..< 8])"
  let ?w' = "w\<lparr>ncalls := ncalls w + 8, events := events w @ ?evs\<rparr>"
  assume exits: "batch_loop env 0 0 [] w = Some (Inr res, w')"
  then have "\<forall>k<8. \<exists>v. env_lib env (ncalls w + k) = Returns v"
    by (rule batch_loop_Inr_returns)
  then have "batch_loop env 0 0 [] w = Some (Inr (201, 0, []), ?w')"
    by (rule batch_loop_all)
  with exits have res: "res = (201, 0, [])" and w': "w' = ?w'"
    by simp_all
  show "res = (201, 0, [])"
    by (rule res)
  show "ncalls w' = ncalls w + 8"
    using w' by simp
  have cr: "created ?evs = map user_props [1 ..< 201]"
    using concat_batch_users [of 8] by (simp only: created_rounds) simp
  have wr: "written ?evs = map batch_users [0 ..< 8]"
    by (rule written_rounds)
  have first: "hd (map user_props [1 ..< 201]) = user_props (Suc 0)"
    by (simp add: upt_conv_Cons)
  have "[1 ..< Suc 200] = [1 ..< 200] @ [200]"
    by (rule upt_Suc_append) simp
  then have final: "last (map user_props [1 ..< 201]) = user_props 200"
    by simp
  have lens: "map length (map batch_users [0 ..< 8]) = replicate 8 25"
    by (simp add: length_batch_users comp_def map_replicate_const)
  have "concat (written ?evs) = created ?evs"
    by (simp only: created_rounds written_rounds)
  with w' cr wr first final lens
  show "\<exists>evs. events w' = events w @ evs
           \<and> evs = concat (map batch_events [0 ..< 8])
           \<and> created evs = map user_props [1 ..< 201]
           \<and> length (created evs) = 200
           \<and> distinct (created evs)
           \<and> hd (created evs) =
               JObj [(''name'', JStr ''user1''), (''email'', JStr ''user1@acme.com'')]
           \<and> last (created evs) =
               JObj [(''name'', JStr ''user200''), (''email'', JStr ''user200@acme.com'')]
           \<and> length (written evs) = 8
           \<and> map length (written evs) = replicate 8 25
           \<and> written evs = map batch_users [0 ..< 8]
           \<and> concat (written evs) = created evs"
    by (intro exI [of _ ?evs]) (simp add: distinct_users user_props_1 user_props_200)
next
  assume "\<forall>k<8. \<exists>v. env_lib env (ncalls w + k) = Returns v"
  then show "\<exists>w''. batch_loop env 0 0 [] w = Some (Inr (201, 0, []), w'')"
    using batch_loop_all by blast
next
  show "batch_loop env 0 0 [] w \<noteq> None"
    using ends_batch_loop by (simp add: ends_def)
qed

theorem batch_loop_writes_200_users_in_8_batches_witness:
  "\<exists>w'. batch_loop \<lparr>env_lib = (\<lambda>n. Returns LUndefined), env_spawn = Returns LNull,
        env_kill = (\<lambda>p. None)\<rparr> 0 0 [] world0 = Some (Inr (201, 0, []), w')
       \<and> ncalls w' = 8
       \<and> created (events w') = map user_props [1 ..< 201]
       \<and> length (written (events w')) = 8
       \<and> concat (written (events w')) = created (events w')"
proof -
  let ?env = "\<lparr>env_lib = (\<lambda>n. Returns LUndefined), env_spawn = Returns LNull,
        env_kill = (\<lambda>p. None)\<rparr>"
  have ok: "\<forall>k<8. \<exists>v. env_lib ?env (ncalls world0 + k) = Returns v"
    by simp
  with batch_loop_writes_200_users_in_8_batches [of ?env world0] obtain w' where
    run: "batch_loop ?env 0 0 [] world0 = Some (Inr (201, 0, []), w')"
    by blast
  with batch_loop_writes_200_users_in_8_batches [of ?env world0 "(201, 0, [])" w']
  obtain evs where
    "events w' = events world0 @ evs" "ncalls w' = ncalls world0 + 8"
    "created evs = map user_props [1 ..< 201]" "length (written evs) = 8"
    "concat (written evs) = created evs"
    by blast
  with run show ?thesis
    by (simp add: world0_def)
qed

section \<open>\<open>main\<close> of the script\<close>













end
